theory Spec2Isabelle
  imports Main "HOL-Library.Word" "HOL-Library.Sublist"
begin

unbundle bit_operations_syntax

section \<open>Data model of \<open>obd/OBDCommand.py\<close>\<close>

text \<open>
  A Python \<open>bytes\<close> or \<open>bytearray\<close> value is a list of 8-bit characters, so that the
  command \<open>b"0100"\<close> is the literal \<open>''0100''\<close>. A Python \<open>str\<close> is a list of Unicode
  code points. Python integers are unbounded: \<open>int\<close>.
\<close>

type_synonym pybytes = "char list"
type_synonym pystr = "nat list"

text \<open>
  \<open>protocols.Message\<close> is a collaborator of the class: the command reads its \<open>ecu\<close> tag and
  reads and assigns its \<open>data\<close> field. Messages are objects that the caller shares with
  the command, so they live in a store and a batch is a list of references.
\<close>

record Message =
  ecu :: int
  data :: pybytes

type_synonym ref = nat
type_synonym store = "ref \<Rightarrow> Message"

text \<open>The fields assigned by \<open>OBDCommand.__init__\<close>, in the order of the source.\<close>

record 'v OBDCommand =
  name :: string
  desc :: string
  command :: pybytes
  bytes :: int
  decode :: "Message list \<Rightarrow> 'v"
  ecu :: int
  fast :: bool
  frames :: "int option"
  strict :: bool

text \<open>
  Modelled from the spec: \<open>OBDResponse\<close> is not part of the sources. The spec describes it
  as a fresh value holding a back-reference to the originating descriptor, the list of
  messages considered, and a \<open>value\<close> slot that stays absent until it is assigned.
\<close>

record 'v OBDResponse =
  command :: "'v OBDCommand"
  messages :: "ref list"
  "value" :: "'v option"

text \<open>
  \<open>__str__\<close> renders a command as \<open>"%s: %s" % (self.command, self.desc)\<close>. Every
  diagnostic text of the class embeds this rendering; the model keeps the two fields the
  rendering is made of instead of the formatted characters.
\<close>

type_synonym rendering = "pybytes \<times> string"

definition str_of :: "'v OBDCommand \<Rightarrow> rendering" where
  "str_of c = (OBDCommand.command c, desc c)"

text \<open>
  Modelled from the spec: \<open>OBDError\<close> comes from \<open>utils\<close>, which is not part of the
  sources. The class raises it with three different texts, which the spec names
  FrameCountMismatch, PayloadTooLong and PayloadTooShort. Each constructor carries the
  arguments of the corresponding \<open>format\<close> call, in the order of the call.
\<close>

datatype OBDError =
    FrameCountMismatch rendering int nat
  | PayloadTooLong rendering nat int
  | PayloadTooShort rendering nat int

text \<open>The four texts passed to \<open>logger.warning\<close>, with the arguments of their \<open>format\<close> calls.\<close>

datatype notice =
    FrameCountWarning rendering int nat
  | TrimmedWarning rendering pybytes
  | PaddedWarning rendering pybytes
  | NoAcceptableMessages rendering

section \<open>Evaluation: \<open>__call__\<close> and \<open>__constrain_message_data\<close>\<close>

text \<open>The predicate \<open>for_us = lambda m: (self.ecu & m.ecu) > 0\<close>.\<close>

definition for_us :: "'v OBDCommand \<Rightarrow> Message \<Rightarrow> bool" where
  "for_us c m = ((OBDCommand.ecu c AND Message.ecu m) > 0)"

text \<open>
  \<open>__constrain_message_data\<close> on one message: an error, or the message as it is left
  together with the warnings logged. The slice \<open>data[:n]\<close> with \<open>n > 0\<close> keeps the first
  \<open>n\<close> bytes; \<open>b'\x00' * k\<close> is \<open>k\<close> zero bytes.
\<close>

definition constrain_message_data ::
  "'v OBDCommand \<Rightarrow> Message \<Rightarrow> OBDError + (Message \<times> notice list)" where
  "constrain_message_data c m =
     (if bytes c > 0 then
        if int (length (data m)) > bytes c then
          if strict c then
            Inl (PayloadTooLong (str_of c) (length (data m)) (bytes c))
          else
            let m' = m\<lparr>data := take (nat (bytes c)) (data m)\<rparr>
            in Inr (m', [TrimmedWarning (str_of c) (data m')])
        else if int (length (data m)) < bytes c then
          if strict c then
            Inl (PayloadTooShort (str_of c) (length (data m)) (bytes c))
          else
            let m' = m\<lparr>data := data m @
                       replicate (nat (bytes c - int (length (data m)))) (CHR 0x00)\<rparr>
            in Inr (m', [PaddedWarning (str_of c) (data m')])
        else Inr (m, [])
      else Inr (m, []))"

text \<open>
  The loop \<open>for m in messages: self.__constrain_message_data(m)\<close>. Each iteration reads the
  referenced message from the store and writes it back; an error leaves the loop with the
  store and the log as they are at that moment.
\<close>

fun constrain_all ::
  "'v OBDCommand \<Rightarrow> store \<Rightarrow> ref list \<Rightarrow> notice list \<Rightarrow> store \<times> notice list \<times> OBDError option"
  where
  "constrain_all c h [] log = (h, log, None)"
| "constrain_all c h (a # as) log =
     (case constrain_message_data c (h a) of
        Inl e \<Rightarrow> (h, log, Some e)
      | Inr (m', w) \<Rightarrow> constrain_all c (h(a := m')) as (log @ w))"

text \<open>
  \<open>__call__\<close>: the store after the call, the warnings logged in order, and either the error
  raised or the response returned. The decode function is the caller's; it is applied to
  the retained messages as the store holds them after the loop.
\<close>

definition retained :: "'v OBDCommand \<Rightarrow> store \<Rightarrow> ref list \<Rightarrow> ref list" where
  "retained c h ms = filter (\<lambda>a. for_us c (h a)) ms"

definition call ::
  "'v OBDCommand \<Rightarrow> store \<Rightarrow> ref list \<Rightarrow> store \<times> notice list \<times> (OBDError + 'v OBDResponse)"
  where
  "call c h ms =
     (let msgs = retained c h ms in
      case (case frames c of
              None \<Rightarrow> Inr []
            | Some f \<Rightarrow>
                if f \<noteq> int (length msgs) then
                  if strict c then Inl (FrameCountMismatch (str_of c) f (length msgs))
                  else Inr [FrameCountWarning (str_of c) f (length msgs)]
                else Inr []) of
        Inl e \<Rightarrow> (h, [], Inl e)
      | Inr log \<Rightarrow>
          (case constrain_all c h msgs log of
             (h', log', Some e) \<Rightarrow> (h', log', Inl e)
           | (h', log', None) \<Rightarrow>
               if msgs \<noteq> [] then
                 (h', log',
                  Inr \<lparr>OBDResponse.command = c, messages = msgs,
                       value = Some (decode c (map h' msgs))\<rparr>)
               else
                 (h', log' @ [NoAcceptableMessages (str_of c)],
                  Inr \<lparr>OBDResponse.command = c, messages = msgs, value = None\<rparr>)))"

section \<open>Derived accessors: \<open>mode\<close> and \<open>pid\<close>\<close>

text \<open>
  \<open>bytes.decode()\<close> decodes UTF-8 strictly and raises \<open>UnicodeDecodeError\<close> on a byte
  sequence that is not well-formed UTF-8: a stray continuation byte, a truncated or
  overlong sequence, a surrogate, or a code point above \<open>0x10FFFF\<close>. \<open>None\<close> stands for
  the exception.
\<close>

definition cont :: "nat \<Rightarrow> bool" where
  "cont b = (0x80 \<le> b \<and> b \<le> 0xBF)"

text \<open>
  The second byte of a sequence is restricted further after four lead bytes: \<open>E0\<close> and
  \<open>F0\<close> exclude overlong forms, \<open>ED\<close> excludes the surrogates, \<open>F4\<close> stops at
  \<open>0x10FFFF\<close>.
\<close>

definition second_lo :: "nat \<Rightarrow> nat" where
  "second_lo b0 = (if b0 = 0xE0 then 0xA0 else if b0 = 0xF0 then 0x90 else 0x80)"

definition second_hi :: "nat \<Rightarrow> nat" where
  "second_hi b0 = (if b0 = 0xED then 0x9F else if b0 = 0xF4 then 0x8F else 0xBF)"

text \<open>
  One step of the decoder: the code point at the front of the bytes and the bytes that
  follow it, or \<open>None\<close> where the front is not a well-formed sequence.
\<close>

definition utf8_next :: "nat list \<Rightarrow> (nat \<times> nat list) option" where
  "utf8_next bs =
     (case bs of
        [] \<Rightarrow> None
      | b0 # r0 \<Rightarrow>
          if b0 < 0x80 then Some (b0, r0)
          else if 0xC2 \<le> b0 \<and> b0 \<le> 0xDF then
            (case r0 of
               b1 # r1 \<Rightarrow>
                 if cont b1 then Some ((b0 - 0xC0) * 64 + (b1 - 0x80), r1) else None
             | _ \<Rightarrow> None)
          else if 0xE0 \<le> b0 \<and> b0 \<le> 0xEF then
            (case r0 of
               b1 # b2 # r2 \<Rightarrow>
                 if second_lo b0 \<le> b1 \<and> b1 \<le> second_hi b0 \<and> cont b2
                 then Some ((b0 - 0xE0) * 4096 + (b1 - 0x80) * 64 + (b2 - 0x80), r2)
                 else None
             | _ \<Rightarrow> None)
          else if 0xF0 \<le> b0 \<and> b0 \<le> 0xF4 then
            (case r0 of
               b1 # b2 # b3 # r3 \<Rightarrow>
                 if second_lo b0 \<le> b1 \<and> b1 \<le> second_hi b0 \<and> cont b2 \<and> cont b3
                 then Some ((b0 - 0xF0) * 262144 + (b1 - 0x80) * 4096 + (b2 - 0x80) * 64
                            + (b3 - 0x80), r3)
                 else None
             | _ \<Rightarrow> None)
          else None)"

text \<open>
  The decoder proper: step after step to the end of the bytes. Every step consumes at
  least one byte, which is why the recursion ends.
\<close>

function utf8 :: "nat list \<Rightarrow> pystr option" where
  "utf8 [] = Some []"
| "utf8 (b # bs) =
     (case utf8_next (b # bs) of
        None \<Rightarrow> None
      | Some (cp, r) \<Rightarrow> map_option ((#) cp) (utf8 r))"
  by pat_completeness auto
termination
  by (relation "measure length")
     (auto simp: utf8_next_def split: list.splits if_splits)

definition bytes_decode :: "pybytes \<Rightarrow> pystr option" where
  "bytes_decode bs = utf8 (map of_char bs)"

text \<open>
  Modelled from the spec: \<open>isHex\<close> comes from \<open>utils\<close>, which is not part of the sources.
  The spec asks for text that is valid hexadecimal: every character is one of the
  hexadecimal digits \<open>0123456789abcdefABCDEF\<close>.
\<close>

definition hexdigits :: pystr where
  "hexdigits = map of_char ''0123456789abcdefABCDEF''"

definition isHex :: "pystr \<Rightarrow> bool" where
  "isHex txt = list_all (\<lambda>ch. ch \<in> set hexdigits) txt"

text \<open>
  \<open>int(s, 16)\<close> on a byte string of hexadecimal digits, read from the left; it raises
  \<open>ValueError\<close> on the empty string and on any other byte. (The sign, the \<open>0x\<close> prefix, the
  underscores and the surrounding white space that \<open>int\<close> accepts as well are left out:
  both callers pass a slice of a command that \<open>isHex\<close> accepted.)
\<close>

datatype pyexc = UnicodeDecodeError | ValueError

definition digit16 :: "char \<Rightarrow> nat option" where
  "digit16 ch =
     (let n = (of_char ch :: nat) in
      if 48 \<le> n \<and> n \<le> 57 then Some (n - 48)
      else if 97 \<le> n \<and> n \<le> 102 then Some (n - 87)
      else if 65 \<le> n \<and> n \<le> 70 then Some (n - 55)
      else None)"

fun int16_from :: "int \<Rightarrow> pybytes \<Rightarrow> pyexc + int" where
  "int16_from acc [] = Inr acc"
| "int16_from acc (ch # r) =
     (case digit16 ch of
        None \<Rightarrow> Inl ValueError
      | Some d \<Rightarrow> int16_from (acc * 16 + int d) r)"

definition int16 :: "pybytes \<Rightarrow> pyexc + int" where
  "int16 s = (if s = [] then Inl ValueError else int16_from 0 s)"

text \<open>
  The two properties. \<open>and\<close> is evaluated from the left, so a command that is too short is
  never decoded. The result is the exception raised, or the value returned, which is
  \<open>None\<close> in the \<open>else\<close> branch.
\<close>

definition mode :: "'v OBDCommand \<Rightarrow> pyexc + int option" where
  "mode c =
     (if length (OBDCommand.command c) \<ge> 2 then
        case bytes_decode (OBDCommand.command c) of
          None \<Rightarrow> Inl UnicodeDecodeError
        | Some txt \<Rightarrow>
            if isHex txt then map_sum id Some (int16 (take 2 (OBDCommand.command c)))
            else Inr None
      else Inr None)"

definition pid :: "'v OBDCommand \<Rightarrow> pyexc + int option" where
  "pid c =
     (if length (OBDCommand.command c) > 2 then
        case bytes_decode (OBDCommand.command c) of
          None \<Rightarrow> Inl UnicodeDecodeError
        | Some txt \<Rightarrow>
            if isHex txt then map_sum id Some (int16 (drop 2 (OBDCommand.command c)))
            else Inr None
      else Inr None)"

text \<open>
  The reading of hexadecimal text that the specification refers to: a digit counts its
  value, and the character at distance \<open>k\<close> from the right end counts \<open>16 ^ k\<close> times.
\<close>

definition digit_value :: "nat \<Rightarrow> int" where
  "digit_value ch =
     (if ch \<in> {of_char CHR ''0'' .. of_char CHR ''9''} then int ch - int (of_char CHR ''0'')
      else if ch \<in> {of_char CHR ''a'' .. of_char CHR ''f''}
        then 10 + (int ch - int (of_char CHR ''a''))
      else if ch \<in> {of_char CHR ''A'' .. of_char CHR ''F''}
        then 10 + (int ch - int (of_char CHR ''A''))
      else 0)"

definition base16_value :: "pystr \<Rightarrow> int" where
  "base16_value s = (\<Sum>i < length s. digit_value (s ! i) * 16 ^ (length s - 1 - i))"

section \<open>Copying and identity: \<open>clone\<close>, \<open>__hash__\<close>, \<open>__eq__\<close>\<close>

text \<open>
  Commands are objects as well. The commands created so far are the entries of a list and
  a reference to a command is its position in the list. The constructor call
  \<open>OBDCommand(...)\<close> creates one more object: it appends the record that \<open>__init__\<close> fills
  from its arguments, in the order of the parameters, and returns the position of the new
  entry, which is the reference of no object created before.
\<close>

type_synonym 'v objects = "'v OBDCommand list"

definition new_OBDCommand ::
  "'v objects \<Rightarrow> string \<Rightarrow> string \<Rightarrow> pybytes \<Rightarrow> int \<Rightarrow> (Message list \<Rightarrow> 'v) \<Rightarrow> int \<Rightarrow> bool
     \<Rightarrow> int option \<Rightarrow> bool \<Rightarrow> 'v objects \<times> ref" where
  "new_OBDCommand objs n d cmd b decoder e f fr s =
     (objs @ [\<lparr>name = n, desc = d, OBDCommand.command = cmd, bytes = b, decode = decoder,
               OBDCommand.ecu = e, fast = f, frames = fr, strict = s\<rparr>],
      length objs)"

text \<open>
  \<open>clone\<close> passes the nine fields of \<open>self\<close> to the constructor and returns the reference
  it gets. \<open>self\<close> is the reference of an existing object.
\<close>

definition clone :: "'v objects \<Rightarrow> ref \<Rightarrow> 'v objects \<times> ref" where
  "clone objs self =
     new_OBDCommand objs
       (name (objs ! self))
       (desc (objs ! self))
       (OBDCommand.command (objs ! self))
       (bytes (objs ! self))
       (decode (objs ! self))
       (OBDCommand.ecu (objs ! self))
       (fast (objs ! self))
       (frames (objs ! self))
       (strict (objs ! self))"

text \<open>
  \<open>__eq__\<close> accepts any Python value as its second argument; \<open>isinstance\<close> tells a
  command from everything else.
\<close>

datatype 'v pyvalue =
    PyCommand "'v OBDCommand"
  | PyNone
  | PyBool bool
  | PyInt int
  | PyBytes pybytes
  | PyStr pystr
  | PyList "'v pyvalue list"

fun cmd_eq :: "'v OBDCommand \<Rightarrow> 'v pyvalue \<Rightarrow> bool" where
  "cmd_eq self (PyCommand other) = (OBDCommand.command self = OBDCommand.command other)"
| "cmd_eq self _ = False"

text \<open>
  \<open>__hash__\<close> returns \<open>hash(self.command)\<close>. The built-in hash of a byte string is some
  function of its bytes, fixed for the run of the interpreter: the parameter \<open>H\<close>.
\<close>

definition cmd_hash :: "(pybytes \<Rightarrow> int) \<Rightarrow> 'v OBDCommand \<Rightarrow> int" where
  "cmd_hash H c = H (OBDCommand.command c)"

section \<open>Auxiliary definitions\<close>

text \<open>
  The payload that the lenient branches of \<open>__constrain_message_data\<close> leave behind, as a
  function of the expected size and the payload found.
\<close>

definition fit :: "int \<Rightarrow> pybytes \<Rightarrow> pybytes" where
  "fit n d =
     (if n > 0 \<and> int (length d) > n then take (nat n) d
      else if n > 0 \<and> int (length d) < n then d @ replicate (nat (n - int (length d))) (CHR 0x00)
      else d)"

text \<open>
  The first retained message whose payload has not the expected size, and the error that
  the strict branches of \<open>__constrain_message_data\<close> raise for a message.
\<close>

definition first_misfit :: "'v OBDCommand \<Rightarrow> store \<Rightarrow> ref list \<Rightarrow> ref option" where
  "first_misfit c h as = find (\<lambda>a. int (length (data (h a))) \<noteq> bytes c) as"

definition payload_error :: "'v OBDCommand \<Rightarrow> Message \<Rightarrow> OBDError" where
  "payload_error c m =
     (if int (length (data m)) > bytes c
      then PayloadTooLong (str_of c) (length (data m)) (bytes c)
      else PayloadTooShort (str_of c) (length (data m)) (bytes c))"

text \<open>
  A command and a bus to evaluate on: the engine answers with a short, a long and an exact
  payload (references 10, 12 and 13), and the transmission answers at reference 11. The
  decode function returns the payloads it is given.
\<close>

definition RPM :: "pybytes list OBDCommand" where
  "RPM = \<lparr>name = ''RPM'', desc = ''Engine RPM'', OBDCommand.command = ''010C'', bytes = 4,
          decode = map data, OBDCommand.ecu = 2, fast = True, frames = None, strict = False\<rparr>"

definition bus :: store where
  "bus = (\<lambda>a.
     if a = 10 then \<lparr>Message.ecu = 2, data = [CHR 0x41, CHR 0x0C]\<rparr>
     else if a = 11 then \<lparr>Message.ecu = 4, data = [CHR 0x41, CHR 0x0C, CHR 0x1A, CHR 0xF8]\<rparr>
     else if a = 12 then
       \<lparr>Message.ecu = 2, data = [CHR 0x41, CHR 0x0C, CHR 0x1A, CHR 0xF8, CHR 0x00, CHR 0x00]\<rparr>
     else if a = 13 then \<lparr>Message.ecu = 2, data = [CHR 0x41, CHR 0x0C, CHR 0x1A, CHR 0xF8]\<rparr>
     else \<lparr>Message.ecu = 0, data = []\<rparr>)"

section \<open>The normalisation loop\<close>

lemma cmd_strict:
  "strict c \<Longrightarrow> constrain_message_data c m = Inr (m', w) \<Longrightarrow> m' = m \<and> w = []"
  by (auto simp: constrain_message_data_def split: if_splits)

lemma cmd_no_bytes:
  "bytes c \<le> 0 \<Longrightarrow> constrain_message_data c m = Inr (m, [])"
  by (simp add: constrain_message_data_def)

lemma constrain_all_strict:
  "strict c \<Longrightarrow> constrain_all c h as log = (h', log', r) \<Longrightarrow> h' = h \<and> log' = log"
proof (induction as arbitrary: h log)
  case Nil
  then show ?case by simp
next
  case (Cons a as)
  show ?case
  proof (cases "constrain_message_data c (h a)")
    case (Inl e)
    with Cons.prems show ?thesis by simp
  next
    case (Inr p)
    obtain m' w where p: "p = (m', w)" by (cases p)
    from cmd_strict[OF Cons.prems(1)] Inr p have mw: "m' = h a" "w = []" by auto
    have "h(a := m') = h" using mw by simp
    with Cons.prems Inr p mw Cons.IH[of "h" "log"] show ?thesis by simp
  qed
qed

lemma constrain_all_no_bytes:
  "bytes c \<le> 0 \<Longrightarrow> constrain_all c h as log = (h, log, None)"
  by (induction as arbitrary: h log) (simp_all add: cmd_no_bytes)

lemma fit_length: "n > 0 \<Longrightarrow> int (length (fit n d)) = n"
  by (auto simp: fit_def)

lemma fit_idem: "fit n (fit n d) = fit n d"
  by (cases "n > 0") (use fit_length[of n d] in \<open>auto simp: fit_def\<close>)

lemma cmd_lenient_fit:
  "\<not> strict c \<Longrightarrow> \<exists>w. constrain_message_data c m = Inr (m\<lparr>data := fit (bytes c) (data m)\<rparr>, w)"
  by (simp add: constrain_message_data_def Let_def fit_def)

lemma constrain_all_lenient:
  "\<not> strict c \<Longrightarrow>
   \<exists>log'. constrain_all c h as log =
     (\<lambda>a. if a \<in> set as then (h a)\<lparr>data := fit (bytes c) (data (h a))\<rparr> else h a, log @ log', None)"
proof (induction as arbitrary: h log)
  case Nil
  then show ?case by simp
next
  case (Cons a as)
  obtain w where w: "constrain_message_data c (h a) = Inr ((h a)\<lparr>data := fit (bytes c) (data (h a))\<rparr>, w)"
    using cmd_lenient_fit[OF Cons.prems] by blast
  let ?h1 = "h(a := (h a)\<lparr>data := fit (bytes c) (data (h a))\<rparr>)"
  obtain l where l: "constrain_all c ?h1 as (log @ w) =
     (\<lambda>b. if b \<in> set as then (?h1 b)\<lparr>data := fit (bytes c) (data (?h1 b))\<rparr> else ?h1 b, (log @ w) @ l, None)"
    using Cons.IH[OF Cons.prems, of ?h1 "log @ w"] by blast
  have eq: "(\<lambda>b. if b \<in> set as then (?h1 b)\<lparr>data := fit (bytes c) (data (?h1 b))\<rparr> else ?h1 b)
          = (\<lambda>b. if b \<in> set (a # as) then (h b)\<lparr>data := fit (bytes c) (data (h b))\<rparr> else h b)"
    by (rule ext) (simp add: fit_idem)
  show ?case using w l eq by simp
qed

lemma cmd_strict_cases:
  "strict c \<Longrightarrow> 0 < bytes c \<Longrightarrow>
   constrain_message_data c m =
     (if int (length (data m)) \<noteq> bytes c then Inl (payload_error c m) else Inr (m, []))"
  by (simp add: constrain_message_data_def payload_error_def)

lemma constrain_all_strict_find:
  "strict c \<Longrightarrow> 0 < bytes c \<Longrightarrow>
   constrain_all c h as log =
     (h, log, map_option (\<lambda>a. payload_error c (h a)) (first_misfit c h as))"
  by (induction as) (simp_all add: first_misfit_def cmd_strict_cases)

section \<open>The call as a whole\<close>

lemma call_cases:
  "call c h ms =
     (let msgs = retained c h ms;
          differs = (case frames c of None \<Rightarrow> False | Some f \<Rightarrow> f \<noteq> int (length msgs))
      in if differs \<and> strict c
         then (h, [], Inl (FrameCountMismatch (str_of c) (the (frames c)) (length msgs)))
         else
           (case constrain_all c h msgs
                   (if differs then [FrameCountWarning (str_of c) (the (frames c)) (length msgs)]
                    else []) of
              (h', log', Some e) \<Rightarrow> (h', log', Inl e)
            | (h', log', None) \<Rightarrow>
                (h', log' @ (if msgs = [] then [NoAcceptableMessages (str_of c)] else []),
                 Inr \<lparr>OBDResponse.command = c, messages = msgs,
                      value = (if msgs = [] then None else Some (decode c (map h' msgs)))\<rparr>)))"
  by (auto simp: call_def Let_def split: option.splits prod.splits)

lemma call_strict_store:
  assumes "strict c"
  shows "fst (call c h ms) = h"
proof -
  obtain h' log' r where r: "constrain_all c h (retained c h ms) [] = (h', log', r)"
    by (cases "constrain_all c h (retained c h ms) []") auto
  from constrain_all_strict[OF assms r] have "h' = h" by simp
  with r assms show ?thesis
    by (auto simp: call_cases Let_def split: option.splits)
qed

lemma call_lenient:
  assumes "\<not> strict c"
  shows "\<exists>log. call c h ms =
     (\<lambda>a. if a \<in> set (retained c h ms) then (h a)\<lparr>data := fit (bytes c) (data (h a))\<rparr> else h a,
      log,
      Inr \<lparr>OBDResponse.command = c, messages = retained c h ms,
           value = (if retained c h ms = [] then None
                    else Some (decode c (map (\<lambda>a. (h a)\<lparr>data := fit (bytes c) (data (h a))\<rparr>)
                                          (retained c h ms))))\<rparr>)"
proof -
  let ?init = "if (case frames c of None \<Rightarrow> False | Some f \<Rightarrow> f \<noteq> int (length (retained c h ms)))
        then [FrameCountWarning (str_of c) (the (frames c)) (length (retained c h ms))] else []"
  obtain l where l: "constrain_all c h (retained c h ms) ?init =
     (\<lambda>a. if a \<in> set (retained c h ms) then (h a)\<lparr>data := fit (bytes c) (data (h a))\<rparr> else h a,
      ?init @ l, None)"
    using constrain_all_lenient[OF assms, of h "retained c h ms" ?init] by blast
  have m: "map (\<lambda>a. if a \<in> set (retained c h ms) then (h a)\<lparr>data := fit (bytes c) (data (h a))\<rparr> else h a)
             (retained c h ms)
         = map (\<lambda>a. (h a)\<lparr>data := fit (bytes c) (data (h a))\<rparr>) (retained c h ms)"
    by simp
  show ?thesis
    unfolding call_cases Let_def using assms l by (simp add: m)
qed


lemma call_error_strict:
  "snd (snd (call c h ms)) = Inl e \<Longrightarrow> strict c"
  using call_lenient[of c h ms] by (cases "strict c") auto

section \<open>Evaluating the sample command\<close>

lemma retained_sample: "retained RPM bus [10, 11, 12] = [10, 12]"
  by (simp add: retained_def for_us_def RPM_def bus_def)

lemma call_sample:
  "snd (snd (call RPM bus [10, 11, 12])) =
     Inr \<lparr>OBDResponse.command = RPM, messages = [10, 12],
          value = Some [[CHR 0x41, CHR 0x0C, CHR 0x00, CHR 0x00],
                        [CHR 0x41, CHR 0x0C, CHR 0x1A, CHR 0xF8]]\<rparr>"
  by (simp add: call_def retained_def for_us_def constrain_message_data_def RPM_def bus_def
      numeral_2_eq_2)

lemmas sample_defs = call_def retained_def for_us_def constrain_message_data_def str_of_def
  RPM_def bus_def

section \<open>The attribution filter\<close>



section \<open>Commands that expect no particular size\<close>

text \<open>
  Claim C8. A command with \<open>bytes = 0\<close> leaves the store as it found it, whether it is
  strict or not and whatever the payloads are: no message changes its data length.
\<close>

theorem zero_bytes_no_mutation:
  assumes "bytes c = 0"
  shows "fst (call c h ms) = h
         \<and> (\<forall>a. length (data (fst (call c h ms) a)) = length (data (h a)))"
proof -
  have "fst (call c h ms) = h"
    using assms by (simp add: call_cases Let_def constrain_all_no_bytes)
  then show ?thesis by simp
qed

theorem zero_bytes_no_mutation_witness:
  "bytes (RPM\<lparr>bytes := 0\<rparr>) = 0
   \<and> map (\<lambda>a. length (data (fst (call (RPM\<lparr>bytes := 0\<rparr>) bus [10, 11, 12]) a))) [10, 11, 12]
       = [2, 4, 6]"
proof -
  have b: "bytes (RPM\<lparr>bytes := 0\<rparr>) = 0" by simp
  show ?thesis using b zero_bytes_no_mutation[OF b, of bus "[10, 11, 12]"]
    by (simp add: bus_def)
qed

section \<open>Calls that end in an error\<close>

text \<open>
  Claim C10. When the call raises, the command is strict and the store is the one the
  caller passed in: no message has had its data changed.
\<close>

theorem error_leaves_store:
  assumes "snd (snd (call c h ms)) = Inl e"
  shows "strict c \<and> fst (call c h ms) = h \<and> (\<forall>a. data (fst (call c h ms) a) = data (h a))"
proof -
  have s: "strict c" using call_error_strict[OF assms] .
  from call_strict_store[OF s, of h ms] s show ?thesis by simp
qed

theorem error_leaves_store_witness:
  "snd (snd (call (RPM\<lparr>strict := True\<rparr>) bus [10, 11, 12]))
     = Inl (PayloadTooShort (''010C'', ''Engine RPM'') 2 4)
   \<and> strict (RPM\<lparr>strict := True\<rparr>)
   \<and> map (\<lambda>a. data (fst (call (RPM\<lparr>strict := True\<rparr>) bus [10, 11, 12]) a)) [10, 12]
       = [[CHR 0x41, CHR 0x0C], [CHR 0x41, CHR 0x0C, CHR 0x1A, CHR 0xF8, CHR 0x00, CHR 0x00]]"
proof -
  have e: "snd (snd (call (RPM\<lparr>strict := True\<rparr>) bus [10, 11, 12]))
             = Inl (PayloadTooShort (''010C'', ''Engine RPM'') 2 4)"
    by (simp add: call_def retained_def for_us_def constrain_message_data_def RPM_def bus_def
        str_of_def)
  show ?thesis using e error_leaves_store[OF e]
    by (simp add: bus_def)
qed


section \<open>Lenient normalisation\<close>

text \<open>
  Claim C2. For a lenient command that expects \<open>N > 0\<close> bytes, every retained message
  holds exactly \<open>N\<close> bytes after the call: a longer payload is cut down to its first \<open>N\<close>
  bytes, a shorter one is extended on the right with zero bytes, one of \<open>N\<close> bytes stays
  as it is. The \<open>ecu\<close> tag is untouched, and the call returns a response whose value is
  what the decode function makes of the normalised messages.
\<close>

theorem lenient_normalisation:
  assumes "\<not> strict c" and "bytes c = int N" and "0 < N"
    and "a \<in> set (retained c h ms)"
  shows "length (data (fst (call c h ms) a)) = N
         \<and> (N < length (data (h a)) \<longrightarrow> data (fst (call c h ms) a) = take N (data (h a)))
         \<and> (length (data (h a)) < N \<longrightarrow>
              data (fst (call c h ms) a)
                = data (h a) @ replicate (N - length (data (h a))) (CHR 0x00))
         \<and> (length (data (h a)) = N \<longrightarrow> data (fst (call c h ms) a) = data (h a))
         \<and> Message.ecu (fst (call c h ms) a) = Message.ecu (h a)
         \<and> (\<exists>r. snd (snd (call c h ms)) = Inr r \<and> a \<in> set (messages r)
                \<and> value r = Some (decode c (map (fst (call c h ms)) (messages r))))"
proof -
  obtain log where l: "call c h ms =
     (\<lambda>a. if a \<in> set (retained c h ms) then (h a)\<lparr>data := fit (bytes c) (data (h a))\<rparr> else h a,
      log,
      Inr \<lparr>OBDResponse.command = c, messages = retained c h ms,
           value = (if retained c h ms = [] then None
                    else Some (decode c (map (\<lambda>a. (h a)\<lparr>data := fit (bytes c) (data (h a))\<rparr>)
                                          (retained c h ms))))\<rparr>)"
    using call_lenient[OF assms(1), of h ms] by blast
  have ne: "retained c h ms \<noteq> []" using assms(4) by auto
  have d: "data (fst (call c h ms) a) = fit (int N) (data (h a))"
    using l assms(2,4) by simp
  have e: "Message.ecu (fst (call c h ms) a) = Message.ecu (h a)"
    using l assms(4) by simp
  have m: "map (\<lambda>a. if a \<in> set (retained c h ms)
                      then (h a)\<lparr>data := fit (bytes c) (data (h a))\<rparr> else h a)
             (retained c h ms)
         = map (\<lambda>a. (h a)\<lparr>data := fit (bytes c) (data (h a))\<rparr>) (retained c h ms)"
    by simp
  have r: "\<exists>r. snd (snd (call c h ms)) = Inr r \<and> a \<in> set (messages r)
                \<and> value r = Some (decode c (map (fst (call c h ms)) (messages r)))"
    using l ne assms(4) by (simp add: m)
  have f1: "length (fit (int N) (data (h a))) = N"
    using fit_length[of "int N" "data (h a)"] assms(3) by simp
  have f2: "N < length (data (h a)) \<Longrightarrow> fit (int N) (data (h a)) = take N (data (h a))"
    using assms(3) by (simp add: fit_def)
  have f3: "length (data (h a)) < N \<Longrightarrow>
      fit (int N) (data (h a)) = data (h a) @ replicate (N - length (data (h a))) (CHR 0x00)"
    using assms(3) by (simp add: fit_def nat_diff_distrib')
  have f4: "length (data (h a)) = N \<Longrightarrow> fit (int N) (data (h a)) = data (h a)"
    by (simp add: fit_def)
  show ?thesis using d e r f1 f2 f3 f4 by simp
qed

theorem lenient_normalisation_witness:
  "\<not> strict RPM \<and> bytes RPM = int 4 \<and> 10 \<in> set (retained RPM bus [10])
   \<and> data (fst (call RPM bus [10]) 10) = [CHR 0x41, CHR 0x0C, CHR 0x00, CHR 0x00]
   \<and> length (data (fst (call RPM bus [10]) 10)) = 4"
proof -
  have a: "\<not> strict RPM" by (simp add: RPM_def)
  have b: "bytes RPM = int 4" by (simp add: RPM_def)
  have c: "(0::nat) < 4" by simp
  have d: "10 \<in> set (retained RPM bus [10])" by (simp add: retained_def for_us_def RPM_def bus_def)
  have e: "length (data (bus 10)) = 2" by (simp add: bus_def)
  have f: "data (bus 10) = [CHR 0x41, CHR 0x0C]" by (simp add: bus_def)
  show ?thesis using a b d lenient_normalisation[OF a b c d]
    by (simp add: e f numeral_2_eq_2)
qed

section \<open>No retained message and one expected frame\<close>

text \<open>
  Claim C1, as the code has it. With \<open>frames = 1\<close> and no retained message, a lenient
  command logs the frame count warning and then the warning that no acceptable message
  arrived, and returns a response without a value; a strict command raises the frame
  count error, with 1 expected and 0 found. In general a call that retains no message
  raises exactly when the command is strict and \<open>frames\<close> is set to a number other than 0;
  in every other case, lenient or strict, it leaves the store alone, logs the warning that
  no acceptable message arrived as its last notice and returns a response without a value.
\<close>

theorem no_messages_frame_one:
  assumes "retained c h ms = []"
  shows "(frames c = Some 1 \<and> \<not> strict c \<longrightarrow>
            call c h ms =
              (h, [FrameCountWarning (str_of c) 1 0, NoAcceptableMessages (str_of c)],
               Inr \<lparr>OBDResponse.command = c, messages = [], value = None\<rparr>))
         \<and> (frames c = Some 1 \<and> strict c \<longrightarrow>
              call c h ms = (h, [], Inl (FrameCountMismatch (str_of c) 1 0)))
         \<and> ((\<exists>e. snd (snd (call c h ms)) = Inl e)
              \<longleftrightarrow> strict c \<and> (\<exists>f. frames c = Some f \<and> f \<noteq> 0))
         \<and> (\<forall>f. strict c \<and> frames c = Some f \<and> f \<noteq> 0 \<longrightarrow>
                call c h ms = (h, [], Inl (FrameCountMismatch (str_of c) f 0)))
         \<and> (\<not> (strict c \<and> (\<exists>f. frames c = Some f \<and> f \<noteq> 0)) \<longrightarrow>
                (\<exists>log. call c h ms =
                   (h, log @ [NoAcceptableMessages (str_of c)],
                    Inr \<lparr>OBDResponse.command = c, messages = [], value = None\<rparr>)))"
proof (cases "frames c")
  case None
  with assms show ?thesis by (simp add: call_def)
next
  case (Some f)
  show ?thesis
  proof (cases "f = 0")
    case True
    with assms Some show ?thesis by (simp add: call_def)
  next
    case False
    with assms Some show ?thesis by (cases "strict c") (simp_all add: call_def)
  qed
qed

theorem no_messages_frame_one_witness:
  "retained (RPM\<lparr>frames := Some 1\<rparr>) bus [11] = []
   \<and> snd (call (RPM\<lparr>frames := Some 1\<rparr>) bus [11]) =
       ([FrameCountWarning (''010C'', ''Engine RPM'') 1 0,
         NoAcceptableMessages (''010C'', ''Engine RPM'')],
        Inr \<lparr>OBDResponse.command = RPM\<lparr>frames := Some 1\<rparr>, messages = [], value = None\<rparr>)
   \<and> retained (RPM\<lparr>strict := True\<rparr>) bus [11] = []
   \<and> (\<forall>e. snd (snd (call (RPM\<lparr>strict := True\<rparr>) bus [11])) \<noteq> Inl e)"
proof -
  have b: "retained (RPM\<lparr>frames := Some 1\<rparr>) bus [11] = []"
    by (simp add: retained_def for_us_def RPM_def bus_def)
  have c: "\<not> strict (RPM\<lparr>frames := Some 1\<rparr>)" by (simp add: RPM_def)
  have d: "str_of (RPM\<lparr>frames := Some 1\<rparr>) = (''010C'', ''Engine RPM'')"
    by (simp add: str_of_def RPM_def)
  have b': "retained (RPM\<lparr>strict := True\<rparr>) bus [11] = []"
    by (simp add: retained_def for_us_def RPM_def bus_def)
  have f': "frames (RPM\<lparr>strict := True\<rparr>) = None" by (simp add: RPM_def)
  show ?thesis
    using b c b' no_messages_frame_one[OF b] no_messages_frame_one[OF b']
    by (simp add: d f')
qed

text \<open>
  The claim as written promises a response in strict mode too. A strict command with
  \<open>frames = 1\<close> whose only message comes from another ECU raises instead.
\<close>

theorem no_messages_strict_raises:
  "frames (RPM\<lparr>frames := Some 1, strict := True\<rparr>) = Some 1
   \<and> strict (RPM\<lparr>frames := Some 1, strict := True\<rparr>)
   \<and> retained (RPM\<lparr>frames := Some 1, strict := True\<rparr>) bus [11] = []
   \<and> snd (snd (call (RPM\<lparr>frames := Some 1, strict := True\<rparr>) bus [11])) =
       Inl (FrameCountMismatch (''010C'', ''Engine RPM'') 1 0)"
  by (simp add: sample_defs)

section \<open>The frame count check\<close>

text \<open>
  Claim C4, as the code has it. When \<open>frames = F\<close> differs from the number of retained
  messages, a strict command raises the frame count error with \<open>F\<close> and that number; a
  lenient command logs a warning with the same contents first and goes on to return a
  response, whose value is the decode function's result on the retained messages when
  there is at least one, and absent when there is none.
\<close>

theorem frame_count_check:
  assumes "frames c = Some F" and "F \<noteq> int (length (retained c h ms))"
  shows "(strict c \<longrightarrow>
            call c h ms =
              (h, [], Inl (FrameCountMismatch (str_of c) F (length (retained c h ms)))))
         \<and> (\<not> strict c \<longrightarrow>
              (\<exists>log.
                 snd (call c h ms) =
                   (FrameCountWarning (str_of c) F (length (retained c h ms)) # log,
                    Inr \<lparr>OBDResponse.command = c, messages = retained c h ms,
                         value = (if retained c h ms = [] then None
                                  else Some (decode c (map (fst (call c h ms))
                                                        (retained c h ms))))\<rparr>)))"
proof (cases "strict c")
  case True
  with assms show ?thesis by (simp add: call_def)
next
  case False
  obtain l where l: "constrain_all c h (retained c h ms)
                       [FrameCountWarning (str_of c) F (length (retained c h ms))] =
     (\<lambda>a. if a \<in> set (retained c h ms) then (h a)\<lparr>data := fit (bytes c) (data (h a))\<rparr> else h a,
      [FrameCountWarning (str_of c) F (length (retained c h ms))] @ l, None)"
    using constrain_all_lenient[OF False] by blast
  let ?h' = "\<lambda>a. if a \<in> set (retained c h ms)
                  then (h a)\<lparr>data := fit (bytes c) (data (h a))\<rparr> else h a"
  have c: "call c h ms =
     (?h',
      FrameCountWarning (str_of c) F (length (retained c h ms)) # l
        @ (if retained c h ms = [] then [NoAcceptableMessages (str_of c)] else []),
      Inr \<lparr>OBDResponse.command = c, messages = retained c h ms,
           value = (if retained c h ms = [] then None
                    else Some (decode c (map ?h' (retained c h ms))))\<rparr>)"
    unfolding call_cases Let_def using False assms l by simp
  have f: "fst (call c h ms) = ?h'" by (simp add: c)
  show ?thesis unfolding f using False by (simp add: c)
qed

theorem frame_count_check_witness:
  "frames (RPM\<lparr>frames := Some 3\<rparr>) = Some 3
   \<and> 3 \<noteq> int (length (retained (RPM\<lparr>frames := Some 3\<rparr>) bus [13, 11]))
   \<and> \<not> strict (RPM\<lparr>frames := Some 3\<rparr>)
   \<and> snd (call (RPM\<lparr>frames := Some 3\<rparr>) bus [13, 11]) =
        ([FrameCountWarning (''010C'', ''Engine RPM'') 3 1],
         Inr \<lparr>OBDResponse.command = RPM\<lparr>frames := Some 3\<rparr>, messages = [13],
              value = Some [[CHR 0x41, CHR 0x0C, CHR 0x1A, CHR 0xF8]]\<rparr>)"
proof -
  have a: "frames (RPM\<lparr>frames := Some 3\<rparr>) = Some 3" by simp
  have r: "retained (RPM\<lparr>frames := Some 3\<rparr>) bus [13, 11] = [13]"
    by (simp add: retained_def for_us_def RPM_def bus_def)
  have b: "3 \<noteq> int (length (retained (RPM\<lparr>frames := Some 3\<rparr>) bus [13, 11]))"
    by (simp add: r)
  have c: "\<not> strict (RPM\<lparr>frames := Some 3\<rparr>)" by (simp add: RPM_def)
  have e: "snd (call (RPM\<lparr>frames := Some 3\<rparr>) bus [13, 11]) =
        ([FrameCountWarning (''010C'', ''Engine RPM'') 3 1],
         Inr \<lparr>OBDResponse.command = RPM\<lparr>frames := Some 3\<rparr>, messages = [13],
              value = Some [[CHR 0x41, CHR 0x0C, CHR 0x1A, CHR 0xF8]]\<rparr>)"
    by (simp add: sample_defs)
  show ?thesis using a b c frame_count_check[OF a b]
    by (simp add: e)
qed

text \<open>
  The claim as written has the decode function invoked in every lenient call. With no
  retained message it is not: the value of the response is absent.
\<close>

theorem lenient_no_messages_not_decoded:
  "frames (RPM\<lparr>frames := Some 1\<rparr>) = Some 1
   \<and> \<not> strict (RPM\<lparr>frames := Some 1\<rparr>)
   \<and> 1 \<noteq> int (length (retained (RPM\<lparr>frames := Some 1\<rparr>) bus [11]))
   \<and> map_sum id value (snd (snd (call (RPM\<lparr>frames := Some 1\<rparr>) bus [11]))) = Inr None
   \<and> map_sum id value (snd (snd (call (RPM\<lparr>frames := Some 1\<rparr>) bus [11])))
       \<noteq> Inr (Some (decode (RPM\<lparr>frames := Some 1\<rparr>)
                     (map (fst (call (RPM\<lparr>frames := Some 1\<rparr>) bus [11]))
                        (retained (RPM\<lparr>frames := Some 1\<rparr>) bus [11]))))"
  by (simp add: sample_defs)

section \<open>Strict payload validation\<close>

text \<open>
  Claim C3, as the code has it. A strict command that expects \<open>N > 0\<close> bytes and retains
  a message of another size raises, leaves the store alone and returns no response. The
  frame count check comes first: if \<open>frames\<close> is set and differs from the number of
  retained messages the error is the frame count error; otherwise it is the payload error
  of the first retained message of another size, too long or too short, with the
  command, the size found and the size expected.
\<close>

theorem strict_payload_check:
  assumes "strict c" and "bytes c = int N" and "0 < N"
    and "a \<in> set (retained c h ms)" and "length (data (h a)) \<noteq> N"
  shows "\<exists>e. call c h ms = (h, [], Inl e)
           \<and> (case frames c of
                 Some f \<Rightarrow>
                   if f \<noteq> int (length (retained c h ms))
                   then e = FrameCountMismatch (str_of c) f (length (retained c h ms))
                   else (\<exists>b. find (\<lambda>b. length (data (h b)) \<noteq> N) (retained c h ms) = Some b
                           \<and> e = (if N < length (data (h b))
                                  then PayloadTooLong (str_of c) (length (data (h b))) (int N)
                                  else PayloadTooShort (str_of c) (length (data (h b))) (int N)))
               | None \<Rightarrow>
                   (\<exists>b. find (\<lambda>b. length (data (h b)) \<noteq> N) (retained c h ms) = Some b
                      \<and> e = (if N < length (data (h b))
                             then PayloadTooLong (str_of c) (length (data (h b))) (int N)
                             else PayloadTooShort (str_of c) (length (data (h b))) (int N))))"
proof -
  have pos: "0 < bytes c" using assms(2,3) by simp
  have fm: "first_misfit c h (retained c h ms)
              = find (\<lambda>b. length (data (h b)) \<noteq> N) (retained c h ms)"
    using assms(2) by (simp add: first_misfit_def)
  obtain b where b: "find (\<lambda>b. length (data (h b)) \<noteq> N) (retained c h ms) = Some b"
    using assms(4,5) by (cases "find (\<lambda>b. length (data (h b)) \<noteq> N) (retained c h ms)")
      (auto simp: find_None_iff)
  have pe: "payload_error c (h b) =
      (if N < length (data (h b))
       then PayloadTooLong (str_of c) (length (data (h b))) (int N)
       else PayloadTooShort (str_of c) (length (data (h b))) (int N))"
    using assms(2) by (simp add: payload_error_def)
  have ca: "\<And>log. constrain_all c h (retained c h ms) log = (h, log, Some (payload_error c (h b)))"
    using constrain_all_strict_find[OF assms(1) pos] fm b by simp
  show ?thesis
  proof (cases "frames c")
    case None
    then show ?thesis using ca b pe by (simp add: call_def)
  next
    case (Some f)
    then show ?thesis using ca b pe assms(1)
      by (cases "f = int (length (retained c h ms))") (simp_all add: call_def)
  qed
qed

theorem strict_payload_check_witness:
  "strict (RPM\<lparr>strict := True\<rparr>) \<and> bytes (RPM\<lparr>strict := True\<rparr>) = int 4
   \<and> 12 \<in> set (retained (RPM\<lparr>strict := True\<rparr>) bus [13, 12, 10])
   \<and> length (data (bus 12)) \<noteq> 4
   \<and> call (RPM\<lparr>strict := True\<rparr>) bus [13, 12, 10] =
        (bus, [], Inl (PayloadTooLong (''010C'', ''Engine RPM'') 6 4))"
proof -
  have a: "strict (RPM\<lparr>strict := True\<rparr>)" by simp
  have b: "bytes (RPM\<lparr>strict := True\<rparr>) = int 4" by (simp add: RPM_def)
  have c: "(0::nat) < 4" by simp
  have r: "retained (RPM\<lparr>strict := True\<rparr>) bus [13, 12, 10] = [13, 12, 10]"
    by (simp add: retained_def for_us_def RPM_def bus_def)
  have d: "12 \<in> set (retained (RPM\<lparr>strict := True\<rparr>) bus [13, 12, 10])" by (simp add: r)
  have e: "length (data (bus 12)) \<noteq> 4" by (simp add: bus_def)
  have f: "frames (RPM\<lparr>strict := True\<rparr>) = None" by (simp add: RPM_def)
  have g: "length (data (bus 13)) = 4" by (simp add: bus_def)
  have s: "str_of (RPM\<lparr>strict := True\<rparr>) = (''010C'', ''Engine RPM'')"
    by (simp add: str_of_def RPM_def)
  have l: "length (data (bus 12)) = 6" by (simp add: bus_def)
  show ?thesis using a b d e strict_payload_check[OF a b c d e]
    by (auto simp add: f r g s l)
qed

text \<open>
  The claim as written promises a payload error whenever a retained payload has the wrong
  size. With \<open>frames = 2\<close>, one retained message and a payload of 2 bytes instead of 4, the
  error raised is the frame count error.
\<close>

theorem frame_count_error_comes_first:
  "strict (RPM\<lparr>strict := True, frames := Some 2\<rparr>)
   \<and> bytes (RPM\<lparr>strict := True, frames := Some 2\<rparr>) = 4
   \<and> retained (RPM\<lparr>strict := True, frames := Some 2\<rparr>) bus [10, 11] = [10]
   \<and> length (data (bus 10)) = 2
   \<and> snd (snd (call (RPM\<lparr>strict := True, frames := Some 2\<rparr>) bus [10, 11])) =
        Inl (FrameCountMismatch (''010C'', ''Engine RPM'') 2 1)"
  by (simp add: sample_defs)


section \<open>Clones\<close>

lemma retained_after_lenient:
  "retained c (\<lambda>a. if a \<in> set R then (h a)\<lparr>data := fit (bytes c) (data (h a))\<rparr> else h a) ms
     = retained c h ms"
  by (simp add: retained_def for_us_def cong: filter_cong)

lemma call_again_value:
  "map_sum id value (snd (snd (call c (fst (call c h ms)) ms)))
     = map_sum id value (snd (snd (call c h ms)))"
proof (cases "strict c")
  case True
  then show ?thesis by (simp add: call_strict_store)
next
  case False
  let ?n = "\<lambda>h a. (h a)\<lparr>data := fit (bytes c) (data (h a))\<rparr>"
  let ?R = "retained c h ms"
  let ?h' = "\<lambda>a. if a \<in> set ?R then ?n h a else h a"
  obtain l1 where c1: "call c h ms =
     (?h', l1, Inr \<lparr>OBDResponse.command = c, messages = ?R,
           value = (if ?R = [] then None else Some (decode c (map (?n h) ?R)))\<rparr>)"
    using call_lenient[OF False, of h ms] by blast
  have R': "retained c ?h' ms = ?R" by (rule retained_after_lenient)
  obtain l2 where c2: "call c ?h' ms =
     (\<lambda>a. if a \<in> set ?R then ?n ?h' a else ?h' a, l2,
      Inr \<lparr>OBDResponse.command = c, messages = ?R,
           value = (if ?R = [] then None else Some (decode c (map (?n ?h') ?R)))\<rparr>)"
    using call_lenient[OF False, of ?h' ms] unfolding R' by blast
  have m: "map (?n ?h') ?R = map (?n h) ?R"
    by (simp add: fit_idem)
  have f: "fst (call c h ms) = ?h'" by (simp add: c1)
  show ?thesis unfolding f by (simp add: c1 c2 m)
qed

lemma clone_result:
  "self < length objs \<Longrightarrow> clone objs self = (objs @ [objs ! self], length objs)"
  by (simp add: clone_def new_OBDCommand_def)

text \<open>
  Claim C9. \<open>clone\<close> returns a new descriptor: its reference differs from \<open>self\<close> and from
  the reference of every object that existed before, the existing objects are as they
  were, and a later assignment to the clone leaves the original alone. The nine fields of
  the clone equal those of the original, and a call of the clone ends with the same value,
  or the same error, as a call of the original on the same store and batch. Since the
  first call may have changed the messages, the same holds when the clone is called on
  the store that the call of the original left behind.
\<close>

theorem clone_new_descriptor:
  assumes "self < length objs" and "clone objs self = (objs', new)"
  shows "new \<noteq> self \<and> length objs \<le> new \<and> new < length objs'
         \<and> (\<forall>r < length objs. objs' ! r = objs ! r)
         \<and> (objs'[new := x]) ! self = objs ! self
         \<and> name (objs' ! new) = name (objs ! self)
         \<and> desc (objs' ! new) = desc (objs ! self)
         \<and> OBDCommand.command (objs' ! new) = OBDCommand.command (objs ! self)
         \<and> bytes (objs' ! new) = bytes (objs ! self)
         \<and> decode (objs' ! new) = decode (objs ! self)
         \<and> OBDCommand.ecu (objs' ! new) = OBDCommand.ecu (objs ! self)
         \<and> fast (objs' ! new) = fast (objs ! self)
         \<and> frames (objs' ! new) = frames (objs ! self)
         \<and> strict (objs' ! new) = strict (objs ! self)
         \<and> map_sum id value (snd (snd (call (objs' ! new) h ms)))
             = map_sum id value (snd (snd (call (objs' ! self) h ms)))
         \<and> map_sum id value
               (snd (snd (call (objs' ! new) (fst (call (objs' ! self) h ms)) ms)))
             = map_sum id value (snd (snd (call (objs' ! self) h ms)))"
proof -
  from clone_result[OF assms(1)] assms(2)
  have o: "objs' = objs @ [objs ! self]" and n: "new = length objs" by simp_all
  have old: "\<forall>r < length objs. objs' ! r = objs ! r"
    by (simp add: o nth_append)
  have self: "objs' ! self = objs ! self" using old assms(1) by simp
  have new: "objs' ! new = objs ! self" by (simp add: o n)
  have upd: "(objs'[new := x]) ! self = objs ! self"
    using assms(1) by (simp add: o n nth_append)
  have fresh: "new \<noteq> self \<and> length objs \<le> new \<and> new < length objs'"
    using assms(1) by (simp add: o n)
  show ?thesis
    using fresh old upd by (simp add: new self call_again_value)
qed

theorem clone_new_descriptor_witness:
  "(0::nat) < length [RPM] \<and> clone [RPM] 0 = ([RPM, RPM], 1)
   \<and> snd (clone [RPM] 0) \<noteq> 0
   \<and> desc (fst (clone [RPM] 0) ! snd (clone [RPM] 0)) = ''Engine RPM''
   \<and> map_sum id value (snd (snd (call ([RPM, RPM] ! 1) bus [10, 11, 12])))
      = Inr (Some [[CHR 0x41, CHR 0x0C, CHR 0x00, CHR 0x00],
                   [CHR 0x41, CHR 0x0C, CHR 0x1A, CHR 0xF8]])"
proof -
  have a: "(0::nat) < length [RPM]" by simp
  have b: "clone [RPM] 0 = ([RPM, RPM], 1)"
    by (simp add: clone_def new_OBDCommand_def)
  have d: "desc RPM = ''Engine RPM''" by (simp add: RPM_def)
  show ?thesis
    using a b clone_new_descriptor[OF a b, of _ bus "[10, 11, 12]"]
    by (simp add: call_sample d)
qed

section \<open>Equality and hash\<close>

text \<open>
  Claim C7. A command equals another value exactly when that value is a command with the
  same \<open>command\<close> bytes; no other field takes part in the comparison or in the hash, so
  commands with the same bytes have the same hash and commands with different bytes are
  never equal.
\<close>

theorem identity_by_command:
  "(cmd_eq c (PyCommand d) \<longleftrightarrow> OBDCommand.command c = OBDCommand.command d)
   \<and> (cmd_eq c v \<longleftrightarrow> (\<exists>d. v = PyCommand d \<and> OBDCommand.command c = OBDCommand.command d))
   \<and> cmd_eq (c\<lparr>name := n, desc := ds, bytes := b, decode := f, OBDCommand.ecu := e,
               fast := fa, frames := fr, strict := st\<rparr>) v = cmd_eq c v
   \<and> cmd_hash H (c\<lparr>name := n, desc := ds, bytes := b, decode := f, OBDCommand.ecu := e,
                   fast := fa, frames := fr, strict := st\<rparr>) = cmd_hash H c
   \<and> (OBDCommand.command c = OBDCommand.command d \<longrightarrow> cmd_hash H c = cmd_hash H d)
   \<and> (OBDCommand.command c \<noteq> OBDCommand.command d \<longrightarrow> \<not> cmd_eq c (PyCommand d))"
  by (cases v) (simp_all add: cmd_hash_def)

theorem identity_by_command_witness:
  "cmd_eq RPM (PyCommand (RPM\<lparr>desc := ''Revolutions'', decode := (\<lambda>ms. [])\<rparr>))
   \<and> cmd_hash (\<lambda>bs. int (length bs)) RPM
       = cmd_hash (\<lambda>bs. int (length bs)) (RPM\<lparr>desc := ''Revolutions'', decode := (\<lambda>ms. [])\<rparr>)
   \<and> \<not> cmd_eq RPM (PyCommand (RPM\<lparr>OBDCommand.command := ''010D''\<rparr>))
   \<and> \<not> cmd_eq RPM (PyBytes ''010C'')"
proof -
  have a: "OBDCommand.command RPM
             = OBDCommand.command (RPM\<lparr>desc := ''Revolutions'', decode := (\<lambda>ms. [])\<rparr>)"
    by simp
  have b: "OBDCommand.command RPM \<noteq> OBDCommand.command (RPM\<lparr>OBDCommand.command := ''010D''\<rparr>)"
    by (simp add: RPM_def)
  show ?thesis
    using a b
      identity_by_command[of RPM "RPM\<lparr>desc := ''Revolutions'', decode := (\<lambda>ms. [])\<rparr>"
        "PyBytes ''010C''" _ _ _ _ _ _ _ _ "\<lambda>bs. int (length bs)"]
      identity_by_command[of RPM "RPM\<lparr>OBDCommand.command := ''010D''\<rparr>" "PyBytes ''010C''"]
    by simp
qed


section \<open>Hexadecimal text\<close>

lemma hexdigits_upt: "hexdigits = [48..<58] @ [97..<103] @ [65..<71]"
  by code_simp

lemma hexdigits_iff:
  "n \<in> set hexdigits \<longleftrightarrow> (48 \<le> n \<and> n \<le> 57) \<or> (97 \<le> n \<and> n \<le> 102) \<or> (65 \<le> n \<and> n \<le> 70)"
  unfolding hexdigits_upt
  by (simp only: set_append set_upt Un_iff atLeastLessThan_iff) arith

lemma hexdigits_ascii: "n \<in> set hexdigits \<Longrightarrow> n < 128"
  unfolding hexdigits_iff by arith

subsection \<open>Decoded text of hexadecimal digits is the bytes themselves\<close>

lemma utf8_next_ascii:
  assumes "utf8_next bs = Some (cp, r)" and "cp < 128"
  shows "bs = cp # r"
proof (cases bs)
  case Nil
  with assms show ?thesis by (simp add: utf8_next_def)
next
  case (Cons b0 r0)
  show ?thesis
  proof (cases "b0 < 0x80")
    case True
    with assms Cons show ?thesis by (simp add: utf8_next_def)
  next
    case False
    have "128 \<le> cp"
    proof (cases "b0 \<le> 0xDF")
      case True
      with assms(1) Cons False show ?thesis
        by (auto simp: utf8_next_def split: list.splits if_splits)
    next
      case hi: False
      show ?thesis
      proof (cases "b0 \<le> 0xEF")
        case True
        with assms(1) Cons hi show ?thesis
          by (auto simp: utf8_next_def second_lo_def split: list.splits if_splits)
      next
        case False
        with assms(1) Cons hi show ?thesis
          by (auto simp: utf8_next_def second_lo_def split: list.splits if_splits)
      qed
    qed
    with assms(2) show ?thesis by simp
  qed
qed

lemma utf8_hex_ascii:
  "utf8 bs = Some cps \<Longrightarrow> isHex cps \<Longrightarrow> cps = bs"
proof (induction bs arbitrary: cps rule: utf8.induct)
  case 1
  then show ?case by simp
next
  case (2 b bs)
  from "2.prems"(1) obtain cp r cps' where
    n: "utf8_next (b # bs) = Some (cp, r)" and u: "utf8 r = Some cps'" and c: "cps = cp # cps'"
    by (auto split: option.splits)
  from "2.prems"(2) c have h: "cp \<in> set hexdigits" "isHex cps'"
    by (simp_all add: isHex_def)
  from utf8_next_ascii[OF n hexdigits_ascii[OF h(1)]] have e: "b # bs = cp # r" .
  from "2.IH"[OF n refl u h(2)] have "cps' = r" .
  with c e show ?case by simp
qed

lemma bytes_decode_hex:
  "bytes_decode s = Some txt \<Longrightarrow> isHex txt \<Longrightarrow> txt = map of_char s"
  unfolding bytes_decode_def by (rule utf8_hex_ascii)

lemma base16_value_Nil: "base16_value [] = 0"
  by (simp add: base16_value_def)

lemma base16_value_Cons:
  "base16_value (x # xs) = digit_value x * 16 ^ length xs + base16_value xs"
  by (simp add: base16_value_def sum.lessThan_Suc_shift del: sum.lessThan_Suc)

lemma digit16_hex:
  assumes "of_char ch \<in> set hexdigits"
  shows "\<exists>d. digit16 ch = Some d \<and> int d = digit_value (of_char ch)"
proof -
  let ?n = "of_char ch :: nat"
  from assms have "(48 \<le> ?n \<and> ?n \<le> 57) \<or> (97 \<le> ?n \<and> ?n \<le> 102) \<or> (65 \<le> ?n \<and> ?n \<le> 70)"
    by (simp only: hexdigits_iff)
  then show ?thesis
    by (auto simp: digit16_def digit_value_def Let_def)
qed

lemma int16_from_hex:
  "list_all (\<lambda>ch. of_char ch \<in> set hexdigits) s \<Longrightarrow>
   int16_from acc s = Inr (acc * 16 ^ length s + base16_value (map of_char s))"
proof (induction s arbitrary: acc)
  case Nil
  then show ?case by (simp add: base16_value_Nil)
next
  case (Cons ch s)
  from Cons.prems obtain d where d: "digit16 ch = Some d" "int d = digit_value (of_char ch)"
    using digit16_hex[of ch] by auto
  from Cons.prems have "list_all (\<lambda>ch. of_char ch \<in> set hexdigits) s" by simp
  from Cons.IH[OF this, of "acc * 16 + int d"] d show ?case
    by (simp add: base16_value_Cons algebra_simps)
qed

lemma int16_hex:
  "s \<noteq> [] \<Longrightarrow> isHex (map of_char s) \<Longrightarrow> int16 s = Inr (base16_value (map of_char s))"
  by (simp add: int16_def isHex_def list.pred_map comp_def int16_from_hex)

lemma isHex_take: "isHex txt \<Longrightarrow> isHex (take k txt)"
  by (auto simp: isHex_def list_all_iff dest: in_set_takeD)

lemma isHex_drop: "isHex txt \<Longrightarrow> isHex (drop k txt)"
  by (auto simp: isHex_def list_all_iff dest: in_set_dropD)

lemma mode_value:
  assumes "bytes_decode (OBDCommand.command c) = Some txt"
  shows "mode c = Inr (if isHex txt \<and> 2 \<le> length txt then Some (base16_value (take 2 txt))
                       else None)"
proof (cases "isHex txt")
  case False
  with assms show ?thesis by (simp add: mode_def)
next
  case True
  from bytes_decode_hex[OF assms True] have t: "txt = map of_char (OBDCommand.command c)" .
  then have l: "length txt = length (OBDCommand.command c)" by simp
  show ?thesis
  proof (cases "2 \<le> length txt")
    case False
    with l show ?thesis by (simp add: mode_def)
  next
    case len: True
    have ne: "take 2 (OBDCommand.command c) \<noteq> []" using len l by auto
    have hx: "isHex (map of_char (take 2 (OBDCommand.command c)))"
      using isHex_take[OF True, of 2] t by (simp add: take_map)
    from int16_hex[OF ne hx] assms True len l t show ?thesis
      by (simp add: mode_def take_map)
  qed
qed

lemma pid_value:
  assumes "bytes_decode (OBDCommand.command c) = Some txt"
  shows "pid c = Inr (if isHex txt \<and> 2 < length txt then Some (base16_value (drop 2 txt))
                      else None)"
proof (cases "isHex txt")
  case False
  with assms show ?thesis by (simp add: pid_def)
next
  case True
  from bytes_decode_hex[OF assms True] have t: "txt = map of_char (OBDCommand.command c)" .
  then have l: "length txt = length (OBDCommand.command c)" by simp
  show ?thesis
  proof (cases "2 < length txt")
    case False
    with l show ?thesis by (simp add: pid_def)
  next
    case len: True
    have ne: "drop 2 (OBDCommand.command c) \<noteq> []" using len l by auto
    have hx: "isHex (map of_char (drop 2 (OBDCommand.command c)))"
      using isHex_drop[OF True, of 2] t by (simp add: drop_map)
    from int16_hex[OF ne hx] assms True len l t show ?thesis
      by (simp add: pid_def drop_map)
  qed
qed

subsection \<open>Sample commands\<close>

lemma decode_0100: "bytes_decode ''0100'' = Some [48, 49, 48, 48]"
  by (simp add: bytes_decode_def utf8_next_def)

lemma decode_01: "bytes_decode ''01'' = Some [48, 49]"
  by (simp add: bytes_decode_def utf8_next_def)

lemma decode_ZZ: "bytes_decode ''ZZ'' = Some [90, 90]"
  by (simp add: bytes_decode_def utf8_next_def)

lemma decode_1aF: "bytes_decode ''1aF'' = Some [49, 97, 70]"
  by (simp add: bytes_decode_def utf8_next_def)

lemma decode_FF: "bytes_decode [CHR 0xFF, CHR 0xFF] = None"
  by (simp add: bytes_decode_def utf8_next_def)

lemma decode_FFF: "bytes_decode [CHR 0xFF, CHR 0xFF, CHR 0xFF] = None"
  by (simp add: bytes_decode_def utf8_next_def)

lemma isHex_samples:
  "isHex [48, 49, 48, 48]" "isHex [48, 49]" "\<not> isHex [90, 90]" "isHex [49, 97, 70]"
  by (simp_all add: isHex_def hexdigits_iff)

lemma base16_samples:
  "base16_value [48, 49] = 1" "base16_value [48, 48] = 0" "base16_value [49, 97] = 26"
  "base16_value [70] = 15"
  by (simp_all add: base16_value_Cons base16_value_Nil digit_value_def)

section \<open>Mode and parameter id\<close>

text \<open>
  What the two accessors compute, for every command. When the bytes decode to text:
  \<open>mode\<close> is the base-16 value of the first two characters if the text is hexadecimal and
  at least two characters long, and absent otherwise; \<open>pid\<close> is the base-16 value of the
  characters after the second if the text is hexadecimal and longer than two characters,
  and absent otherwise; \<open>int\<close> never raises. In particular \<open>b"0100"\<close> has mode 1 and pid 0,
  \<open>b"01"\<close> has mode 1 and no pid, and \<open>b"ZZ"\<close> has neither. When the bytes do not decode,
  the outcome depends on the length test that precedes the call of \<open>decode()\<close>.
\<close>

lemma mode_pid_of_command:
  "(case bytes_decode (OBDCommand.command c) of
      Some txt \<Rightarrow>
        mode c = Inr (if isHex txt \<and> 2 \<le> length txt then Some (base16_value (take 2 txt))
                      else None)
        \<and> pid c = Inr (if isHex txt \<and> 2 < length txt then Some (base16_value (drop 2 txt))
                       else None)
    | None \<Rightarrow>
        mode c = (if 2 \<le> length (OBDCommand.command c) then Inl UnicodeDecodeError
                  else Inr None)
        \<and> pid c = (if 2 < length (OBDCommand.command c) then Inl UnicodeDecodeError
                   else Inr None))
   \<and> mode (c\<lparr>OBDCommand.command := ''0100''\<rparr>) = Inr (Some 0x01)
   \<and> pid (c\<lparr>OBDCommand.command := ''0100''\<rparr>) = Inr (Some 0x00)
   \<and> mode (c\<lparr>OBDCommand.command := ''01''\<rparr>) = Inr (Some 0x01)
   \<and> pid (c\<lparr>OBDCommand.command := ''01''\<rparr>) = Inr None
   \<and> mode (c\<lparr>OBDCommand.command := ''ZZ''\<rparr>) = Inr None
   \<and> pid (c\<lparr>OBDCommand.command := ''ZZ''\<rparr>) = Inr None"
proof -
  have general: "case bytes_decode (OBDCommand.command c) of
      Some txt \<Rightarrow>
        mode c = Inr (if isHex txt \<and> 2 \<le> length txt then Some (base16_value (take 2 txt))
                      else None)
        \<and> pid c = Inr (if isHex txt \<and> 2 < length txt then Some (base16_value (drop 2 txt))
                       else None)
    | None \<Rightarrow>
        mode c = (if 2 \<le> length (OBDCommand.command c) then Inl UnicodeDecodeError
                  else Inr None)
        \<and> pid c = (if 2 < length (OBDCommand.command c) then Inl UnicodeDecodeError
                   else Inr None)"
  proof (cases "bytes_decode (OBDCommand.command c)")
    case None
    then show ?thesis by (simp add: mode_def pid_def)
  next
    case (Some t)
    then show ?thesis using mode_value[OF Some] pid_value[OF Some] by simp
  qed
  have a: "mode (c\<lparr>OBDCommand.command := ''0100''\<rparr>) = Inr (Some 0x01)"
    using mode_value[of "c\<lparr>OBDCommand.command := ''0100''\<rparr>" "[48, 49, 48, 48]"]
    by (simp add: decode_0100 isHex_samples base16_samples)
  have b: "pid (c\<lparr>OBDCommand.command := ''0100''\<rparr>) = Inr (Some 0x00)"
    using pid_value[of "c\<lparr>OBDCommand.command := ''0100''\<rparr>" "[48, 49, 48, 48]"]
    by (simp add: decode_0100 isHex_samples base16_samples)
  have c: "mode (c\<lparr>OBDCommand.command := ''01''\<rparr>) = Inr (Some 0x01)"
    using mode_value[of "c\<lparr>OBDCommand.command := ''01''\<rparr>" "[48, 49]"]
    by (simp add: decode_01 isHex_samples base16_samples)
  have d: "pid (c\<lparr>OBDCommand.command := ''01''\<rparr>) = Inr None"
    by (simp add: pid_def)
  have e: "mode (c\<lparr>OBDCommand.command := ''ZZ''\<rparr>) = Inr None"
    by (simp add: mode_def decode_ZZ isHex_samples)
  have f: "pid (c\<lparr>OBDCommand.command := ''ZZ''\<rparr>) = Inr None"
    by (simp add: pid_def)
  from general a b c d e f show ?thesis by simp
qed

lemma mode_pid_samples:
  "mode (RPM\<lparr>OBDCommand.command := ''1aF''\<rparr>) = Inr (Some 26)
   \<and> pid (RPM\<lparr>OBDCommand.command := ''1aF''\<rparr>) = Inr (Some 15)
   \<and> mode (RPM\<lparr>OBDCommand.command := ''0100''\<rparr>) = Inr (Some 1)
   \<and> pid (RPM\<lparr>OBDCommand.command := [CHR 0xFF, CHR 0xFF]\<rparr>) = Inr None"
  using mode_pid_of_command[of "RPM\<lparr>OBDCommand.command := ''1aF''\<rparr>"]
    mode_pid_of_command[of "RPM\<lparr>OBDCommand.command := [CHR 0xFF, CHR 0xFF]\<rparr>"]
  by (simp add: decode_1aF decode_FF isHex_samples base16_samples)

text \<open>
  Claim C6. Mode and parameter id are derived from the command bytes alone: the base-16
  value of the first two characters, and of the remaining ones, when the command is
  hexadecimal text of sufficient length, and absent otherwise, never an error. The
  accessors keep to this on every command that decodes as text, and \<open>else: return None\<close>
  is their answer to every other invalid command they recognise. On the two bytes
  \<open>b"\xff\xff"\<close>, which are no UTF-8 text, \<open>mode\<close> does not get that far: \<open>decode()\<close>
  raises inside the condition. On the same bytes \<open>pid\<close> yields absent, because its length
  test fails first, as \<open>mode\<close> does on the single byte \<open>b"\xff"\<close> and on \<open>b"ZZ"\<close>; with
  one more byte \<open>pid\<close> raises as well.
\<close>

theorem undecodable_command_raises:
  "bytes_decode [CHR 0xFF, CHR 0xFF] = None
   \<and> mode (RPM\<lparr>OBDCommand.command := [CHR 0xFF, CHR 0xFF]\<rparr>) = Inl UnicodeDecodeError
   \<and> pid (RPM\<lparr>OBDCommand.command := [CHR 0xFF, CHR 0xFF]\<rparr>) = Inr None
   \<and> mode (RPM\<lparr>OBDCommand.command := [CHR 0xFF]\<rparr>) = Inr None
   \<and> mode (RPM\<lparr>OBDCommand.command := ''ZZ''\<rparr>) = Inr None
   \<and> pid (RPM\<lparr>OBDCommand.command := [CHR 0xFF, CHR 0xFF, CHR 0xFF]\<rparr>)
       = Inl UnicodeDecodeError"
  by (simp add: mode_def pid_def decode_FF decode_FFF decode_ZZ isHex_samples)

end
